theory Spec2Isabelle
  imports Complex_Main "HOL-Library.AList" "HOL-Library.Multiset" "HOL-Library.Product_Lexorder"
begin

section \<open>The schema of the helpdesk (migration 20250122003413)\<close>


datatype ticket_status = Open | Pending | Resolved | Closed

datatype ticket_priority = Low | Medium | High | Urgent

text \<open>
  A UUID is only ever compared for equality, so it is a natural number here. A
  \<^verbatim>\<open>TIMESTAMPTZ\<close> is an instant of the store's clock, a whole number of ticks since
  the epoch. A column without \<^verbatim>\<open>NOT NULL\<close> is an \<open>option\<close>, with \<open>None\<close> for
  \<^verbatim>\<open>NULL\<close>.
\<close>

type_synonym uuid = nat

type_synonym timestamptz = int


record categories_row =
  categories_name :: string
  categories_description :: "string option"

record tickets_row =
  tickets_id :: uuid
  tickets_subject :: string
  tickets_description :: string
  tickets_status :: "ticket_status option"
  tickets_priority :: "ticket_priority option"
  tickets_category_id :: "uuid option"
  tickets_created_by :: "uuid option"
  tickets_assigned_to :: "uuid option"
  tickets_sla_due_at :: "timestamptz option"
  tickets_created_at :: "timestamptz option"
  tickets_updated_at :: "timestamptz option"

record ticket_comments_row =
  ticket_comments_id :: uuid
  ticket_comments_ticket_id :: "uuid option"
  ticket_comments_content :: string
  ticket_comments_internal_note :: "bool option"
  ticket_comments_created_by :: "uuid option"
  ticket_comments_created_at :: "timestamptz option"
  ticket_comments_updated_at :: "timestamptz option"



section \<open>Row-level security policies\<close>








section \<open>Commands and queries against the store\<close>









section \<open>The ticket page (\<^verbatim>\<open>TicketDetail\<close>)\<close>

text \<open>
  The state of the component: the loaded ticket, the comment list, the comment form and
  the loading flag. A comment of the list is the stored row (the joined author name is
  left out). What the component does besides changing its state is a list of effects.
\<close>

record TicketDetail =
  ticket :: "tickets_row option"
  comments :: "ticket_comments_row list"
  newComment :: string
  isInternalNote :: bool
  ticket_loading :: bool





section \<open>The session store (\<^verbatim>\<open>useAuth\<close>)\<close>

record 'u AuthState =
  user :: "'u option"
  loading :: bool

text \<open>
  How the awaited call \<^verbatim>\<open>supabase.auth.signOut()\<close> ends: the promise resolves to a
  response that may carry an error, or it rejects.
\<close>

datatype 'e auth_call = Responded "'e option" | Rejected 'e

text \<open>
  \<^verbatim>\<open>signOut\<close>: awaits the call, discards its response, and sets the state. A rejected
  call makes \<^verbatim>\<open>signOut\<close> itself reject (\<open>Inl\<close>), before the state is set.
\<close>

definition signOut :: "'e auth_call \<Rightarrow> 'u AuthState \<Rightarrow> 'e + 'u AuthState" where
  "signOut call s =
     (case call of
        Rejected e \<Rightarrow> Inl e
      | Responded response \<Rightarrow> Inr (s\<lparr>user := None, loading := False\<rparr>))"

section \<open>The dashboard aggregation (\<^verbatim>\<open>Dashboard.fetchStats\<close>)\<close>

text \<open>
  A row of \<^verbatim>\<open>ticketStats\<close>, as the query selects it: the joined category is its name
  when there is one, the joined assignee is its \<^verbatim>\<open>full_name\<close> (itself nullable) when
  there is one. The two instants are held as the millisecond counts that
  \<^verbatim>\<open>new Date(...).getTime()\<close> reads from them.
\<close>

record ticketStats_row =
  status :: "ticket_status option"
  priority :: "ticket_priority option"
  category :: "string option"
  assigned_to :: "string option option"
  created_at :: "timestamptz option"
  updated_at :: "timestamptz option"





subsection \<open>Plain objects used as dictionaries\<close>

text \<open>
  Both reductions start from the object literal \<^verbatim>\<open>{}\<close>, whose prototype is
  \<^verbatim>\<open>Object.prototype\<close>. Reading \<^verbatim>\<open>acc[k]\<close> finds an own property of \<^verbatim>\<open>acc\<close> or else a
  property of the prototype: one of its methods, listed here, or the accessor
  \<^verbatim>\<open>__proto__\<close>, whose getter returns the prototype and whose setter ignores a value
  that is not an object. Every one of these inherited values is truthy.
  An object is modelled by the list of its own properties in the order of their
  creation.
\<close>

definition object_prototype_methods :: "string list" where
  "object_prototype_methods =
     [''constructor'', ''__defineGetter__'', ''__defineSetter__'', ''hasOwnProperty'',
      ''__lookupGetter__'', ''__lookupSetter__'', ''isPrototypeOf'', ''propertyIsEnumerable'',
      ''toString'', ''valueOf'', ''toLocaleString'']"

text \<open>
  \<^verbatim>\<open>Object.entries\<close> lists the own properties whose key is an array index (the decimal
  numeral, without a leading zero, of an integer below \<open>2^32 - 1\<close>) in ascending numeric
  order, and after them the other keys in the order of their creation.
\<close>

definition array_index :: "string \<Rightarrow> int option" where
  "array_index k =
     (case k of
        [] \<Rightarrow> None
      | c # cs \<Rightarrow>
          if list_all (\<lambda>d. 48 \<le> (of_char d :: int) \<and> (of_char d :: int) \<le> 57) k
             \<and> (c \<noteq> CHR ''0'' \<or> cs = [])
          then (let n = foldl (\<lambda>a d. 10 * a + (of_char d - 48)) (0 :: int) k
                in if n < 2 ^ 32 - 1 then Some n else None)
          else None)"

definition object_entries :: "(string \<times> 'v) list \<Rightarrow> (string \<times> 'v) list" where
  "object_entries props =
     sort_key (\<lambda>p. case array_index (fst p) of None \<Rightarrow> 0 | Some n \<Rightarrow> n)
              (filter (\<lambda>p. array_index (fst p) \<noteq> None) props)
     @ filter (\<lambda>p. array_index (fst p) = None) props"

subsection \<open>Category distribution\<close>

text \<open>
  A value stored in \<^verbatim>\<open>categoryCount\<close>. The type annotation says number, but \<^verbatim>\<open>+\<close>
  concatenates when its left operand is not a number, so a string can be stored too.
\<close>

datatype jsvalue = Num nat | Str string

text \<open>
  \<^verbatim>\<open>ticket.category?.name || 'Uncategorized'\<close>: the default replaces a missing category
  and also an empty name, which is falsy.
\<close>

definition category_label :: "ticketStats_row \<Rightarrow> string" where
  "category_label t =
     (case category t of
        None \<Rightarrow> ''Uncategorized''
      | Some n \<Rightarrow> if n = [] then ''Uncategorized'' else n)"

text \<open>
  One step of the reduction, \<^verbatim>\<open>acc[category] = (acc[category] || 0) + 1\<close>.
  \<^item> An own number \<open>n\<close> becomes \<open>n + 1\<close> (also for \<open>n = 0\<close>, through \<^verbatim>\<open>|| 0\<close>); an own
    non-empty string gets the digit appended.
  \<^item> Without an own property the read falls through to the prototype. For an ordinary
    key it is \<^verbatim>\<open>undefined\<close> and the count starts at 1. For the name of a prototype method
    it is that function: the sum is the text of the function followed by \<^verbatim>\<open>1\<close>, stored as
    a new own property. \<open>fn_text\<close> gives the text the engine prints for the function
    under a key.
  \<^item> For \<^verbatim>\<open>__proto__\<close> the getter returns the prototype object, the sum is a string, and
    the setter ignores it: no own property is written.
\<close>

definition categoryCount_step ::
    "(string \<Rightarrow> string) \<Rightarrow> (string \<times> jsvalue) list \<Rightarrow> ticketStats_row \<Rightarrow> (string \<times> jsvalue) list" where
  "categoryCount_step fn_text acc t =
     (let category = category_label t in
      if category = ''__proto__'' then acc
      else AList.update category
             (case map_of acc category of
                Some (Num n) \<Rightarrow> Num (n + 1)
              | Some (Str s) \<Rightarrow> if s = [] then Num 1 else Str (s @ ''1'')
              | None \<Rightarrow>
                  if category \<in> set object_prototype_methods
                  then Str (fn_text category @ ''1'')
                  else Num 1)
             acc)"

definition categoryCount ::
    "(string \<Rightarrow> string) \<Rightarrow> ticketStats_row list \<Rightarrow> (string \<times> jsvalue) list" where
  "categoryCount fn_text ticketStats = foldl (categoryCount_step fn_text) [] ticketStats"

text \<open>
  \<^verbatim>\<open>ticketsByCategory\<close>: the entries of \<^verbatim>\<open>categoryCount\<close>, each a pair of the fields
  \<^verbatim>\<open>category\<close> and \<^verbatim>\<open>count\<close>.
\<close>

definition ticketsByCategory ::
    "(string \<Rightarrow> string) \<Rightarrow> ticketStats_row list \<Rightarrow> (string \<times> jsvalue) list" where
  "ticketsByCategory fn_text ticketStats = object_entries (categoryCount fn_text ticketStats)"

subsection \<open>Agent performance\<close>

text \<open>
  \<^verbatim>\<open>ticket.assigned_to?.full_name\<close> as a condition: false without an assignee, with a
  \<^verbatim>\<open>NULL\<close> name and with an empty name.
\<close>

definition assignee_name :: "ticketStats_row \<Rightarrow> string option" where
  "assignee_name t =
     (case assigned_to t of
        None \<Rightarrow> None
      | Some None \<Rightarrow> None
      | Some (Some n) \<Rightarrow> if n = [] then None else Some n)"

text \<open>
  One step of the reduction. A value of \<^verbatim>\<open>acc\<close> is the pair of \<^verbatim>\<open>count\<close> and
  \<^verbatim>\<open>resolved\<close>. For a name inherited from the prototype \<^verbatim>\<open>acc[agent]\<close> is truthy from
  the start, so no own property is ever created and the increments are written to the
  inherited object: the own properties of \<^verbatim>\<open>acc\<close> stay as they are.
\<close>

definition agentPerformance_step ::
    "(string \<times> nat \<times> nat) list \<Rightarrow> ticketStats_row \<Rightarrow> (string \<times> nat \<times> nat) list" where
  "agentPerformance_step acc t =
     (case assignee_name t of
        None \<Rightarrow> acc
      | Some agent \<Rightarrow>
          if agent = ''__proto__'' \<or> agent \<in> set object_prototype_methods then acc
          else (let stats = (case map_of acc agent of None \<Rightarrow> (0, 0) | Some s \<Rightarrow> s)
                in AList.update agent
                     (fst stats + 1,
                      if status t = Some Resolved then snd stats + 1 else snd stats)
                     acc))"

definition agentPerformance :: "ticketStats_row list \<Rightarrow> (string \<times> nat \<times> nat) list" where
  "agentPerformance ticketStats = foldl agentPerformance_step [] ticketStats"

text \<open>
  \<^verbatim>\<open>ticketsByAgent\<close>: the entries of \<^verbatim>\<open>agentPerformance\<close>, each a triple of the fields
  \<^verbatim>\<open>agent\<close>, \<^verbatim>\<open>count\<close> and \<^verbatim>\<open>resolved\<close>.
\<close>

definition ticketsByAgent :: "ticketStats_row list \<Rightarrow> (string \<times> nat \<times> nat) list" where
  "ticketsByAgent ticketStats = object_entries (agentPerformance ticketStats)"

subsection \<open>Average resolution time and resolution rate\<close>

text \<open>
  JavaScript numbers are IEEE doubles. They are modelled by exact real numbers: the
  rounding of a division or an addition is not part of the model.

  \<^verbatim>\<open>new Date(s).getTime()\<close>: the instant in milliseconds; \<^verbatim>\<open>new Date(null)\<close> is the epoch.
\<close>

definition getTime :: "timestamptz option \<Rightarrow> int" where
  "getTime s = (case s of None \<Rightarrow> 0 | Some i \<Rightarrow> i)"

definition resolvedTickets :: "ticketStats_row list \<Rightarrow> ticketStats_row list" where
  "resolvedTickets ticketStats = filter (\<lambda>t. status t = Some Resolved) ticketStats"

definition avgResolutionTime :: "ticketStats_row list \<Rightarrow> real" where
  "avgResolutionTime ticketStats =
     (if length (resolvedTickets ticketStats) \<noteq> 0
      then foldl (\<lambda>acc ticket.
                    acc + real_of_int (getTime (updated_at ticket) - getTime (created_at ticket))
                          / (1000 * 60 * 60))
                 0 (resolvedTickets ticketStats)
           / real (length (resolvedTickets ticketStats))
      else 0)"





section \<open>A scenario: one client, one agent, one manager\<close>







section \<open>The aggregates as the specification words them\<close>

text \<open>
  The resolution time of a ticket in hours, and the average of the specification: the
  mean of it over the resolved tickets, 0 when there is none.
\<close>

definition resolution_hours :: "ticketStats_row \<Rightarrow> real" where
  "resolution_hours t =
     real_of_int (getTime (updated_at t) - getTime (created_at t)) / 3600000"

definition mean_resolution_hours :: "ticketStats_row list \<Rightarrow> real" where
  "mean_resolution_hours ticketStats =
     (if filter (\<lambda>t. status t = Some Resolved) ticketStats = [] then 0
      else sum_list (map resolution_hours (filter (\<lambda>t. status t = Some Resolved) ticketStats))
           / real (length (filter (\<lambda>t. status t = Some Resolved) ticketStats)))"


text \<open>
  The number that a stored count stands for, when it is one.
\<close>

definition count_number :: "jsvalue \<Rightarrow> nat" where
  "count_number v = (case v of Num n \<Rightarrow> n | Str s \<Rightarrow> 0)"

section \<open>Sample dashboard input\<close>



text \<open>
  A row with a status, a category name and an assignee name, created at the epoch and
  updated two hours later.
\<close>

definition stats_row ::
    "ticket_status \<Rightarrow> string option \<Rightarrow> string option option \<Rightarrow> ticketStats_row" where
  "stats_row s c a =
     \<lparr>status = Some s, priority = Some Medium, category = c, assigned_to = a,
      created_at = Some 0, updated_at = Some 7200000\<rparr>"

text \<open>
  Three tickets of a window: two open, one resolved, two of them assigned to Bob.
\<close>

definition window_rows :: "ticketStats_row list" where
  "window_rows =
     [stats_row Open (Some ''Hardware'') (Some (Some ''Bob'')),
      stats_row Open (Some ''Network'') None,
      stats_row Resolved (Some ''Hardware'') (Some (Some ''Bob''))]"

section \<open>Authorization: who may read and write what\<close>















section \<open>Signing out\<close>

text \<open>
  C10: whenever \<^verbatim>\<open>signOut\<close> completes, the state has no user and is not loading; it
  completes so for every response of the external call, with an error or without,
  since the response is not inspected.
\<close>

theorem signOut_clears_session:
  "signOut (Responded response) s = Inr (s\<lparr>user := None, loading := False\<rparr>)
   \<and> (signOut call s = Inr s' \<longrightarrow> user s' = None \<and> \<not> loading s')"
proof (intro conjI impI)
  show "signOut (Responded response) s = Inr (s\<lparr>user := None, loading := False\<rparr>)"
    by (simp add: signOut_def)
next
  assume completed: "signOut call s = Inr s'"
  have "s' = s\<lparr>user := None, loading := False\<rparr>"
  proof (cases call)
    case (Responded response)
    with completed show ?thesis
      by (simp add: signOut_def)
  next
    case (Rejected e)
    with completed show ?thesis
      by (simp add: signOut_def)
  qed
  then show "user s' = None" and "\<not> loading s'"
    by simp_all
qed

theorem signOut_clears_session_witness:
  "signOut (Responded (Some ''network'')) \<lparr>user = Some (7 :: nat), loading = True\<rparr>
     = Inr \<lparr>user = None, loading = False\<rparr>
   \<and> user \<lparr>user = None :: nat option, loading = False\<rparr> = None
   \<and> \<not> loading \<lparr>user = None :: nat option, loading = False\<rparr>"
proof -
  have completes: "signOut (Responded (Some ''network'')) \<lparr>user = Some (7 :: nat), loading = True\<rparr>
     = Inr \<lparr>user = None, loading = False\<rparr>"
    by (simp add: signOut_def)
  from signOut_clears_session
    [where call = "Responded (Some ''network'')"
       and s = "\<lparr>user = Some (7 :: nat), loading = True\<rparr>"
       and s' = "\<lparr>user = None, loading = False\<rparr>"] completes
  have "user \<lparr>user = None :: nat option, loading = False\<rparr> = None
        \<and> \<not> loading \<lparr>user = None :: nat option, loading = False\<rparr>"
    by blast
  with completes show ?thesis
    by blast
qed

section \<open>The dashboard aggregates\<close>

subsection \<open>Average resolution time\<close>

lemma foldl_plus_sum_list:
  "foldl (\<lambda>acc t. acc + f t) a xs = a + sum_list (map f xs)" for a :: real
  by (induction xs arbitrary: a) simp_all

text \<open>
  C5: \<^verbatim>\<open>avgResolutionTime\<close> is the arithmetic mean, over the resolved tickets, of the
  time from \<^verbatim>\<open>created_at\<close> to \<^verbatim>\<open>updated_at\<close> in hours, and 0 without a resolved ticket;
  for a single resolved ticket updated 3600 seconds after its creation it is 1.
\<close>

theorem avgResolutionTime_is_mean:
  "avgResolutionTime ticketStats = mean_resolution_hours ticketStats
   \<and> avgResolutionTime [\<lparr>status = Some Resolved, priority = p, category = c, assigned_to = a,
                           created_at = Some T, updated_at = Some (T + 3600 * 1000)\<rparr>] = 1"
proof
  have "foldl (\<lambda>acc t. acc + real_of_int (getTime (updated_at t) - getTime (created_at t))
                              / (1000 * 60 * 60)) 0 xs
        = sum_list (map resolution_hours xs)" for xs
    using foldl_plus_sum_list [of resolution_hours 0 xs] by (simp add: resolution_hours_def)
  then show "avgResolutionTime ticketStats = mean_resolution_hours ticketStats"
    by (simp add: avgResolutionTime_def mean_resolution_hours_def resolvedTickets_def)
  show "avgResolutionTime [\<lparr>status = Some Resolved, priority = p, category = c, assigned_to = a,
                           created_at = Some T, updated_at = Some (T + 3600 * 1000)\<rparr>] = 1"
    by (simp add: avgResolutionTime_def resolvedTickets_def getTime_def)
qed

subsection \<open>Resolution rate\<close>






subsection \<open>Entries of an object\<close>

lemma mset_object_entries: "mset (object_entries props) = mset props"
  by (simp add: object_entries_def)

lemma set_object_entries: "set (object_entries props) = set props"
  using mset_object_entries [of props] by (metis set_mset_mset)

lemma sum_list_object_entries:
  "sum_list (map g (object_entries props)) = sum_list (map g props)"
  for g :: "string \<times> 'v \<Rightarrow> nat"
proof -
  have "sum_mset (image_mset g (mset (object_entries props)))
        = sum_mset (image_mset g (mset props))"
    by (simp only: mset_object_entries)
  then show ?thesis
    by (simp only: flip: mset_map sum_mset_sum_list)
qed

lemma foldl_filter_skip:
  assumes "\<And>acc t. \<not> P t \<Longrightarrow> f acc t = acc"
  shows "foldl f a (filter P ts) = foldl f a ts"
  using assms by (induction ts arbitrary: a) simp_all

lemma sum_list_update:
  fixes g :: "'v \<Rightarrow> nat"
  assumes "distinct (map fst al)"
  shows "sum_list (map (\<lambda>p. g (snd p)) (AList.update k v al))
           + (case map_of al k of None \<Rightarrow> 0 | Some w \<Rightarrow> g w)
         = sum_list (map (\<lambda>p. g (snd p)) al) + g v"
  using assms
proof (induction al)
  case Nil
  show ?case by simp
next
  case (Cons p al)
  then show ?case
    by (cases p) (auto simp: rev_image_eqI map_of_eq_None_iff split: option.splits)
qed

subsection \<open>Tickets by category\<close>

lemma categoryCount_snoc:
  "categoryCount f (ts @ [t]) = categoryCount_step f (categoryCount f ts) t"
  by (simp add: categoryCount_def)

lemma categoryCount_distinct: "distinct (map fst (categoryCount f ts))"
proof (induction ts rule: rev_induct)
  case Nil
  show ?case by (simp add: categoryCount_def)
next
  case (snoc t ts)
  then show ?case
    by (simp add: categoryCount_snoc categoryCount_step_def Let_def distinct_update)
qed

text \<open>
  C7. The claim: \<^verbatim>\<open>ticketsByCategory\<close> maps each category name to the number of its
  tickets, and the counts add up to the number of tickets. The code on a single ticket
  whose category is named \<^verbatim>\<open>constructor\<close>: the entry for that name holds a string, the
  text of the inherited function followed by \<^verbatim>\<open>1\<close>, not the number 1. On a single ticket
  whose category is named \<^verbatim>\<open>__proto__\<close> there is no entry at all. In both cases the
  counts add up to 0 for one ticket.
\<close>

theorem ticketsByCategory_inherited_name:
  "ticketsByCategory fn_text [stats_row Open (Some ''constructor'') None]
     = [(''constructor'', Str (fn_text ''constructor'' @ ''1''))]
   \<and> ticketsByCategory fn_text [stats_row Open (Some ''__proto__'') None] = []
   \<and> sum_list (map (\<lambda>p. count_number (snd p))
        (ticketsByCategory fn_text [stats_row Open (Some ''constructor'') None])) = 0"
proof -
  have not_index: "array_index ''constructor'' = None"
    by (simp add: array_index_def)
  have one: "categoryCount fn_text [stats_row Open (Some ''constructor'') None]
     = [(''constructor'', Str (fn_text ''constructor'' @ ''1''))]"
    by (simp add: categoryCount_def categoryCount_step_def category_label_def
        object_prototype_methods_def stats_row_def Let_def)
  have none: "categoryCount fn_text [stats_row Open (Some ''__proto__'') None] = []"
    by (simp add: categoryCount_def categoryCount_step_def category_label_def stats_row_def
        Let_def)
  show ?thesis
    by (simp add: ticketsByCategory_def one none object_entries_def not_index count_number_def)
qed

text \<open>
  For category names that \<^verbatim>\<open>Object.prototype\<close> does not define, the code does what the
  claim says: each name that occurs is mapped to the number of its tickets (with
  \<^verbatim>\<open>Uncategorized\<close> for a missing category or an empty name), no other name has an
  entry, and the counts add up to the number of tickets.
\<close>

lemma categoryCount_step_ordinary:
  assumes "category_label t \<noteq> ''__proto__''"
    and "category_label t \<notin> set object_prototype_methods"
    and "map_of acc (category_label t) = (if n = 0 then None else Some (Num n))"
  shows "categoryCount_step f acc t = AList.update (category_label t) (Num (n + 1)) acc"
  using assms by (simp add: categoryCount_step_def Let_def)

lemma categoryCount_lookup:
  assumes "\<forall>t\<in>set ts. category_label t \<noteq> ''__proto__''
                     \<and> category_label t \<notin> set object_prototype_methods"
  shows "map_of (categoryCount f ts) k =
           (if filter (\<lambda>t. category_label t = k) ts = [] then None
            else Some (Num (length (filter (\<lambda>t. category_label t = k) ts))))"
  using assms
proof (induction ts arbitrary: k rule: rev_induct)
  case Nil
  show ?case by (simp add: categoryCount_def)
next
  case (snoc t ts)
  define n where "n = length (filter (\<lambda>u. category_label u = category_label t) ts)"
  have old: "map_of (categoryCount f ts) (category_label t)
             = (if n = 0 then None else Some (Num n))"
    using snoc.IH [of "category_label t"] snoc.prems by (simp add: n_def)
  have step: "categoryCount f (ts @ [t])
      = AList.update (category_label t) (Num (n + 1)) (categoryCount f ts)"
    using snoc.prems old by (simp add: categoryCount_snoc categoryCount_step_ordinary)
  show ?case
    using snoc.IH [of k] snoc.prems
    by (auto simp: step update_conv' n_def filter_empty_conv)
qed

lemma categoryCount_total:
  assumes "\<forall>t\<in>set ts. category_label t \<noteq> ''__proto__''
                     \<and> category_label t \<notin> set object_prototype_methods"
  shows "sum_list (map (\<lambda>p. count_number (snd p)) (categoryCount f ts)) = length ts"
  using assms
proof (induction ts rule: rev_induct)
  case Nil
  show ?case by (simp add: categoryCount_def)
next
  case (snoc t ts)
  define n where "n = length (filter (\<lambda>u. category_label u = category_label t) ts)"
  have rest: "\<forall>t\<in>set ts. category_label t \<noteq> ''__proto__''
                     \<and> category_label t \<notin> set object_prototype_methods"
    using snoc.prems by simp
  have old: "map_of (categoryCount f ts) (category_label t)
             = (if n = 0 then None else Some (Num n))"
    using categoryCount_lookup [OF rest, of f "category_label t"] by (simp add: n_def)
  have step: "categoryCount f (ts @ [t])
      = AList.update (category_label t) (Num (n + 1)) (categoryCount f ts)"
    using snoc.prems old by (simp add: categoryCount_snoc categoryCount_step_ordinary)
  have "sum_list (map (\<lambda>p. count_number (snd p)) (categoryCount f (ts @ [t]))) + n
          = length ts + (n + 1)"
    using sum_list_update [OF categoryCount_distinct, of count_number "category_label t"
        "Num (n + 1)" f ts] old snoc.IH [OF rest]
    by (simp add: step count_number_def split: if_splits)
  then show ?case by simp
qed

lemma ticketsByCategory_ordinary_names:
  assumes "\<forall>t\<in>set ts. category_label t \<noteq> ''__proto__''
                     \<and> category_label t \<notin> set object_prototype_methods"
  shows "(k, v) \<in> set (ticketsByCategory f ts) \<longleftrightarrow>
           filter (\<lambda>t. category_label t = k) ts \<noteq> []
           \<and> v = Num (length (filter (\<lambda>t. category_label t = k) ts))"
    and "distinct (map fst (ticketsByCategory f ts))"
    and "sum_list (map (\<lambda>p. count_number (snd p)) (ticketsByCategory f ts)) = length ts"
proof -
  have "(k, v) \<in> set (ticketsByCategory f ts) \<longleftrightarrow> map_of (categoryCount f ts) k = Some v"
    by (simp add: ticketsByCategory_def set_object_entries categoryCount_distinct)
  then show "(k, v) \<in> set (ticketsByCategory f ts) \<longleftrightarrow>
           filter (\<lambda>t. category_label t = k) ts \<noteq> []
           \<and> v = Num (length (filter (\<lambda>t. category_label t = k) ts))"
    by (auto simp: categoryCount_lookup [OF assms])
  have "mset (map fst (ticketsByCategory f ts)) = mset (map fst (categoryCount f ts))"
    by (simp add: ticketsByCategory_def mset_object_entries)
  then show "distinct (map fst (ticketsByCategory f ts))"
    using categoryCount_distinct [of f ts] by (metis mset_eq_imp_distinct_iff)
  show "sum_list (map (\<lambda>p. count_number (snd p)) (ticketsByCategory f ts)) = length ts"
    by (simp add: ticketsByCategory_def sum_list_object_entries categoryCount_total [OF assms])
qed

lemma ticketsByCategory_example:
  "ticketsByCategory f
     [stats_row Open (Some ''A'') None, stats_row Open (Some ''B'') None,
      stats_row Pending (Some ''A'') None, stats_row Resolved (Some ''A'') None]
   = [(''A'', Num 3), (''B'', Num 1)]"
proof -
  have not_index: "array_index ''A'' = None" "array_index ''B'' = None"
    by (simp_all add: array_index_def)
  have "categoryCount f
     [stats_row Open (Some ''A'') None, stats_row Open (Some ''B'') None,
      stats_row Pending (Some ''A'') None, stats_row Resolved (Some ''A'') None]
   = [(''A'', Num 3), (''B'', Num 1)]"
    by (simp add: categoryCount_def categoryCount_step_def category_label_def
        object_prototype_methods_def stats_row_def Let_def)
  then show ?thesis
    by (simp add: ticketsByCategory_def object_entries_def not_index)
qed

subsection \<open>Tickets by agent\<close>

lemma agentPerformance_snoc:
  "agentPerformance (ts @ [t]) = agentPerformance_step (agentPerformance ts) t"
  by (simp add: agentPerformance_def)

lemma agentPerformance_distinct: "distinct (map fst (agentPerformance ts))"
proof (induction ts rule: rev_induct)
  case Nil
  show ?case by (simp add: agentPerformance_def)
next
  case (snoc t ts)
  then show ?case
    by (simp add: agentPerformance_snoc agentPerformance_step_def Let_def distinct_update
        split: option.splits)
qed

text \<open>
  What \<^verbatim>\<open>agentPerformance\<close> holds under a name: nothing for a name inherited from the
  prototype or without a ticket, otherwise the number of the tickets assigned to the
  name and the number of the resolved ones among them.
\<close>

lemma agentPerformance_lookup:
  "map_of (agentPerformance ts) a =
     (if a = ''__proto__'' \<or> a \<in> set object_prototype_methods
         \<or> filter (\<lambda>t. assignee_name t = Some a) ts = []
      then None
      else Some (length (filter (\<lambda>t. assignee_name t = Some a) ts),
                 length (filter (\<lambda>t. assignee_name t = Some a \<and> status t = Some Resolved) ts)))"
proof (induction ts arbitrary: a rule: rev_induct)
  case Nil
  show ?case by (simp add: agentPerformance_def)
next
  case (snoc t ts)
  show ?case
  proof (cases "assignee_name t")
    case None
    with snoc show ?thesis
      by (simp add: agentPerformance_snoc agentPerformance_step_def)
  next
    case (Some b)
    show ?thesis
    proof (cases "b = ''__proto__'' \<or> b \<in> set object_prototype_methods")
      case True
      with Some snoc show ?thesis
        by (auto simp add: agentPerformance_snoc agentPerformance_step_def)
    next
      case False
      have step: "agentPerformance (ts @ [t]) =
        AList.update b
          (fst (case map_of (agentPerformance ts) b of None \<Rightarrow> (0, 0) | Some s \<Rightarrow> s) + 1,
           if status t = Some Resolved
           then snd (case map_of (agentPerformance ts) b of None \<Rightarrow> (0, 0) | Some s \<Rightarrow> s) + 1
           else snd (case map_of (agentPerformance ts) b of None \<Rightarrow> (0, 0) | Some s \<Rightarrow> s))
          (agentPerformance ts)"
        using Some False
        by (simp add: agentPerformance_snoc agentPerformance_step_def Let_def)
      show ?thesis
      proof (cases "a = b")
        case True
        have "map_of (agentPerformance ts) b =
          (if filter (\<lambda>t. assignee_name t = Some b) ts = [] then None
           else Some (length (filter (\<lambda>t. assignee_name t = Some b) ts),
                 length (filter (\<lambda>t. assignee_name t = Some b \<and> status t = Some Resolved) ts)))"
          using snoc [of b] False by simp
        then show ?thesis
          using True Some False
          by (auto simp add: step update_conv' filter_empty_conv)
      next
        case False
        then show ?thesis
          using Some snoc
          by (simp add: step update_conv')
      qed
    qed
  qed
qed

text \<open>
  C8: in every entry of \<^verbatim>\<open>ticketsByAgent\<close> the count is the number of input tickets
  assigned to that name and the resolved count is the number of the resolved ones among
  them, so the resolved count is at most the count; and the entries are the same when
  the tickets without an assignee are removed from the input.
\<close>

theorem ticketsByAgent_resolved_le_count:
  "(\<forall>(agent, count, resolved) \<in> set (ticketsByAgent ts).
       count = length (filter (\<lambda>t. assignee_name t = Some agent) ts)
       \<and> resolved = length (filter (\<lambda>t. assignee_name t = Some agent \<and> status t = Some Resolved) ts)
       \<and> resolved \<le> count)
   \<and> ticketsByAgent ts = ticketsByAgent (filter (\<lambda>t. assigned_to t \<noteq> None) ts)"
proof
  show "\<forall>(agent, count, resolved) \<in> set (ticketsByAgent ts).
       count = length (filter (\<lambda>t. assignee_name t = Some agent) ts)
       \<and> resolved = length (filter (\<lambda>t. assignee_name t = Some agent \<and> status t = Some Resolved) ts)
       \<and> resolved \<le> count"
  proof (clarify, intro conjI)
    fix a c r
    assume "(a, c, r) \<in> set (ticketsByAgent ts)"
    then have "map_of (agentPerformance ts) a = Some (c, r)"
      by (simp add: ticketsByAgent_def set_object_entries agentPerformance_distinct)
    then have c: "c = length (filter (\<lambda>t. assignee_name t = Some a) ts)"
      and r: "r = length (filter (\<lambda>t. assignee_name t = Some a \<and> status t = Some Resolved) ts)"
      by (simp_all add: agentPerformance_lookup split: if_splits)
    show "c = length (filter (\<lambda>t. assignee_name t = Some a) ts)"
      by (rule c)
    show "r = length (filter (\<lambda>t. assignee_name t = Some a \<and> status t = Some Resolved) ts)"
      by (rule r)
    have "length (filter (\<lambda>t. status t = Some Resolved) (filter (\<lambda>t. assignee_name t = Some a) ts))
          \<le> length (filter (\<lambda>t. assignee_name t = Some a) ts)"
      by (rule length_filter_le)
    then show "r \<le> c"
      by (simp add: c r conj_commute)
  qed
  have "agentPerformance_step acc t = acc" if "\<not> assigned_to t \<noteq> None" for acc t
    using that by (simp add: agentPerformance_step_def assignee_name_def)
  then have "agentPerformance (filter (\<lambda>t. assigned_to t \<noteq> None) ts) = agentPerformance ts"
    unfolding agentPerformance_def by (rule foldl_filter_skip)
  then show "ticketsByAgent ts = ticketsByAgent (filter (\<lambda>t. assigned_to t \<noteq> None) ts)"
    by (simp add: ticketsByAgent_def)
qed

theorem ticketsByAgent_resolved_le_count_witness:
  "ticketsByAgent window_rows = [(''Bob'', 2, 1)]
   \<and> length (filter (\<lambda>t. assignee_name t = Some ''Bob'') window_rows) = 2
   \<and> length (filter (\<lambda>t. assignee_name t = Some ''Bob'' \<and> status t = Some Resolved) window_rows) = 1
   \<and> (1 :: nat) \<le> 2
   \<and> ticketsByAgent (filter (\<lambda>t. assigned_to t \<noteq> None) window_rows) = [(''Bob'', 2, 1)]"
proof -
  have not_index: "array_index ''Bob'' = None"
    by (simp add: array_index_def)
  have "agentPerformance window_rows = [(''Bob'', 2, 1)]"
    by (simp add: agentPerformance_def agentPerformance_step_def assignee_name_def
        object_prototype_methods_def window_rows_def stats_row_def Let_def)
  then have entries: "ticketsByAgent window_rows = [(''Bob'', 2, 1)]"
    by (simp add: ticketsByAgent_def object_entries_def not_index)
  note claim = ticketsByAgent_resolved_le_count [of window_rows]
  have member: "(''Bob'', 2, 1) \<in> set (ticketsByAgent window_rows)"
    by (simp add: entries)
  from claim have every: "\<forall>(agent, count, resolved) \<in> set (ticketsByAgent window_rows).
       count = length (filter (\<lambda>t. assignee_name t = Some agent) window_rows)
       \<and> resolved = length (filter (\<lambda>t. assignee_name t = Some agent \<and> status t = Some Resolved)
                                window_rows)
       \<and> resolved \<le> count"
    by (rule conjunct1)
  have counts: "2 = length (filter (\<lambda>t. assignee_name t = Some ''Bob'') window_rows)
        \<and> 1 = length (filter (\<lambda>t. assignee_name t = Some ''Bob'' \<and> status t = Some Resolved)
                         window_rows)
        \<and> (1 :: nat) \<le> 2"
    by (rule bspec [OF every member, unfolded prod.case])
  from claim have "ticketsByAgent window_rows
        = ticketsByAgent (filter (\<lambda>t. assigned_to t \<noteq> None) window_rows)"
    by (rule conjunct2)
  with entries have same: "ticketsByAgent (filter (\<lambda>t. assigned_to t \<noteq> None) window_rows)
        = [(''Bob'', 2, 1)]"
    by (simp only:)
  from counts
  have two: "length (filter (\<lambda>t. assignee_name t = Some ''Bob'') window_rows) = 2"
    and one: "length (filter (\<lambda>t. assignee_name t = Some ''Bob'' \<and> status t = Some Resolved)
                        window_rows) = 1"
    by auto
  show ?thesis
    using entries two one same by simp
qed

end
